theory Spec2Isabelle
  imports Main "HOL-Library.Multiset"
begin

section \<open>Documents and collections\<close>

text \<open>
  Object ids are opaque and only ever compared for equality, so they are natural numbers
  here. A collection is the list of its documents in insertion order; the store
  guarantees that the \<open>_id\<close> of a document is unique within its collection.
\<close>

type_synonym oid = nat

text \<open>
  Modelled from the spec: \<open>models/User.js\<close> is not among the sources. The routes read and
  write the fields below: \<open>_id\<close>, \<open>username\<close> and the two edge arrays.
\<close>

record User =
  uid :: oid
  username :: string
  following :: "oid list"
  followers :: "oid list"

text \<open>\<open>TweetSchema\<close> of \<open>models/Tweet.js\<close>; \<open>createdAt\<close> comes from \<open>timestamps: true\<close>.\<close>

record Tweet =
  tid :: oid
  user :: oid
  content :: string
  image :: "string option"
  likes :: "oid list"
  retweets :: "oid list"
  retweetData :: "oid option"
  replyTo :: "oid option"
  pinned :: bool
  createdAt :: nat

record store =
  users :: "User list"
  tweets :: "Tweet list"

text \<open>A response is either a failure (HTTP status and message) or the JSON payload.\<close>

datatype failure = Failure nat string

subsection \<open>Store primitives\<close>

text \<open>\<open>$addToSet\<close> appends a value unless the array already holds it; \<open>$pull\<close> removes
  every occurrence.\<close>

definition addToSet :: "'a \<Rightarrow> 'a list \<Rightarrow> 'a list" where
  "addToSet x xs = (if x \<in> set xs then xs else xs @ [x])"

definition pull :: "'a \<Rightarrow> 'a list \<Rightarrow> 'a list" where
  "pull x xs = filter (\<lambda>y. y \<noteq> x) xs"

text \<open>\<open>findOne\<close>, \<open>updateOne\<close> and \<open>deleteOne\<close> act on the first document that matches the
  filter, \<open>deleteMany\<close> on all of them.\<close>

fun findOne :: "('a \<Rightarrow> bool) \<Rightarrow> 'a list \<Rightarrow> 'a option" where
  "findOne P [] = None"
| "findOne P (d # ds) = (if P d then Some d else findOne P ds)"

fun updateOne :: "('a \<Rightarrow> bool) \<Rightarrow> ('a \<Rightarrow> 'a) \<Rightarrow> 'a list \<Rightarrow> 'a list" where
  "updateOne P f [] = []"
| "updateOne P f (d # ds) = (if P d then f d # ds else d # updateOne P f ds)"

fun deleteOne :: "('a \<Rightarrow> bool) \<Rightarrow> 'a list \<Rightarrow> 'a list" where
  "deleteOne P [] = []"
| "deleteOne P (d # ds) = (if P d then ds else d # deleteOne P ds)"

definition deleteMany :: "('a \<Rightarrow> bool) \<Rightarrow> 'a list \<Rightarrow> 'a list" where
  "deleteMany P ds = filter (\<lambda>d. \<not> P d) ds"

definition User_findById :: "oid \<Rightarrow> store \<Rightarrow> User option" where
  "User_findById i st = findOne (\<lambda>u. uid u = i) (users st)"

definition User_findByIdAndUpdate :: "oid \<Rightarrow> (User \<Rightarrow> User) \<Rightarrow> store \<Rightarrow> store" where
  "User_findByIdAndUpdate i f st = st\<lparr>users := updateOne (\<lambda>u. uid u = i) f (users st)\<rparr>"

definition Tweet_findById :: "oid \<Rightarrow> store \<Rightarrow> Tweet option" where
  "Tweet_findById i st = findOne (\<lambda>t. tid t = i) (tweets st)"

definition Tweet_findByIdAndUpdate :: "oid \<Rightarrow> (Tweet \<Rightarrow> Tweet) \<Rightarrow> store \<Rightarrow> store" where
  "Tweet_findByIdAndUpdate i f st = st\<lparr>tweets := updateOne (\<lambda>t. tid t = i) f (tweets st)\<rparr>"

subsection \<open>Object ids as strings\<close>

text \<open>
  An id reaches a handler as a string (\<open>req.params.id\<close>), and \<open>req.user.id\<close> is the
  string the store renders an \<open>ObjectId\<close> as: its 12 bytes as 24 lower-case hexadecimal
  digits. Where a query or an update takes a string for an id, the store casts it: a
  string of 24 hexadecimal digits, in either letter case, is read as the id with those
  digits. What the cast makes of any other string depends on the driver (an older one
  reads 12 characters as 12 bytes, a newer one throws); it is the parameter
  \<open>cast_other\<close>, with \<open>None\<close> for a \<open>CastError\<close>.
\<close>

definition hex_digit :: "nat \<Rightarrow> char" where
  "hex_digit d = ''0123456789abcdef'' ! (d mod 16)"

definition hex_value :: "char \<Rightarrow> nat option" where
  "hex_value c = map_of (zip ''0123456789abcdefABCDEF''
      [0, 1, 2, 3, 4, 5, 6, 7, 8, 9, 10, 11, 12, 13, 14, 15, 10, 11, 12, 13, 14, 15]) c"

fun to_hex :: "nat \<Rightarrow> nat \<Rightarrow> string" where
  "to_hex 0 v = []"
| "to_hex (Suc n) v = to_hex n (v div 16) @ [hex_digit v]"

fun from_hex :: "nat \<Rightarrow> string \<Rightarrow> nat option" where
  "from_hex acc [] = Some acc"
| "from_hex acc (c # cs) =
    (case hex_value c of None \<Rightarrow> None | Some d \<Rightarrow> from_hex (16 * acc + d) cs)"

definition toString :: "oid \<Rightarrow> string" where
  "toString i = to_hex 24 i"

definition castObjectId :: "(string \<Rightarrow> oid option) \<Rightarrow> string \<Rightarrow> oid option" where
  "castObjectId cast_other s =
    (if length s = 24
     then (case from_hex 0 s of None \<Rightarrow> cast_other s | Some i \<Rightarrow> Some i)
     else cast_other s)"

section \<open>\<open>routes/users.js\<close>\<close>

text \<open>
  \<open>POST /api/users/:id/follow\<close>. \<open>me\<close> is the id behind \<open>req.user.id\<close>, \<open>param\<close> is
  \<open>req.params.id\<close> as the URL spells it. The first test,
  \<open>req.params.id === req.user.id.toString()\<close>, compares two strings.
  \<open>User.findById(req.params.id)\<close> casts the string, and a \<open>CastError\<close> lands in the
  handler's \<open>catch\<close> (status 500), as does reading \<open>currentUser.following\<close> when the
  second lookup returned \<open>null\<close>. \<open>currentUser.following.includes(req.params.id)\<close>
  compares the string with each stored id by \<open>==\<close>, that is with the id's rendering. The
  updates \<open>$pull\<close> and \<open>$addToSet\<close> cast their argument again.
\<close>

definition follow ::
  "(string \<Rightarrow> oid option) \<Rightarrow> store \<Rightarrow> oid \<Rightarrow> string \<Rightarrow> (failure + string) \<times> store" where
  "follow cast_other st me param =
    (if param = toString me then (Inl (Failure 400 ''You cannot follow yourself''), st)
     else case castObjectId cast_other param of
       None \<Rightarrow> (Inl (Failure 500 ''Server error''), st)
     | Some target \<Rightarrow>
        (case User_findById target st of
           None \<Rightarrow> (Inl (Failure 404 ''User not found''), st)
         | Some userToFollow \<Rightarrow>
            (case User_findById me st of
               None \<Rightarrow> (Inl (Failure 500 ''Server error''), st)
             | Some currentUser \<Rightarrow>
                if param \<in> set (map toString (following currentUser)) then
                  let st1 = User_findByIdAndUpdate me
                              (\<lambda>u. u\<lparr>following := pull target (following u)\<rparr>) st;
                      st2 = User_findByIdAndUpdate target
                              (\<lambda>u. u\<lparr>followers := pull me (followers u)\<rparr>) st1
                  in (Inr ''User unfollowed'', st2)
                else
                  let st1 = User_findByIdAndUpdate me
                              (\<lambda>u. u\<lparr>following := addToSet target (following u)\<rparr>) st;
                      st2 = User_findByIdAndUpdate target
                              (\<lambda>u. u\<lparr>followers := addToSet me (followers u)\<rparr>) st1
                  in (Inr ''User followed'', st2))))"

text \<open>
  The block shared by the public read handlers:
  \<^verbatim>\<open>if (req.headers.authorization) { try { const token =
  req.headers.authorization.replace('Bearer ', ''); const decoded = jwt.verify(token,
  process.env.JWT_SECRET); ... } catch (err) { ... } }\<close>.
  \<open>replace\<close> with a string pattern rewrites the first occurrence only. The
  \<open>jsonwebtoken\<close> library is outside the repository: \<open>lib\<close> gives, for a token, the
  \<open>id\<close> of its payload, or \<open>None\<close> when \<open>verify\<close> throws. Whether the identifier \<open>jwt\<close> is
  bound at all depends on the module: \<open>routes/search.js\<close> has
  \<open>const jwt = require('jsonwebtoken')\<close>; the tweets routes and \<open>routes/users.js\<close> have no
  such line, so evaluating \<open>jwt.verify\<close> there throws a \<open>ReferenceError\<close> inside the
  \<open>try\<close>.
\<close>

type_synonym verifier = "string \<Rightarrow> oid option"

datatype js_error = ReferenceError | JsonWebTokenError

definition tweets_jwt :: "verifier \<Rightarrow> verifier option" where
  "tweets_jwt lib = None"

definition users_jwt :: "verifier \<Rightarrow> verifier option" where
  "users_jwt lib = None"

definition search_jwt :: "verifier \<Rightarrow> verifier option" where
  "search_jwt lib = Some lib"

definition jwt_verify :: "verifier option \<Rightarrow> string \<Rightarrow> js_error + oid" where
  "jwt_verify jwt token =
    (case jwt of
       None \<Rightarrow> Inl ReferenceError
     | Some verify \<Rightarrow> (case verify token of None \<Rightarrow> Inl JsonWebTokenError | Some i \<Rightarrow> Inr i))"

fun replace_first :: "string \<Rightarrow> string \<Rightarrow> string \<Rightarrow> string" where
  "replace_first pat rep [] = (if pat = [] then rep else [])"
| "replace_first pat rep (c # cs) =
    (if take (length pat) (c # cs) = pat then rep @ drop (length pat) (c # cs)
     else c # replace_first pat rep cs)"

definition decoded_id :: "verifier option \<Rightarrow> string option \<Rightarrow> oid option" where
  "decoded_id jwt authorization =
    (case authorization of
       None \<Rightarrow> None
     | Some header \<Rightarrow>
        if header = [] then None
        else (case jwt_verify jwt (replace_first ''Bearer '' [] header) of
                Inl err \<Rightarrow> None
              | Inr i \<Rightarrow> Some i))"

text \<open>
  \<open>GET /api/users/:username\<close>. The response is the user document with the count of its
  non-reply tweets and \<open>isFollowing\<close>.
\<close>

record Profile =
  profile_user :: User
  profile_tweets :: nat
  isFollowing :: bool

definition getUser :: "verifier \<Rightarrow> store \<Rightarrow> string \<Rightarrow> string option \<Rightarrow> failure + Profile" where
  "getUser lib st name authorization =
    (case findOne (\<lambda>u. username u = name) (users st) of
       None \<Rightarrow> Inl (Failure 404 ''User not found'')
     | Some u \<Rightarrow>
        let tweetCount = length (filter (\<lambda>t. user t = uid u \<and> replyTo t = None) (tweets st));
            isFollowing =
              (case decoded_id (users_jwt lib) authorization of
                 None \<Rightarrow> False
               | Some i \<Rightarrow>
                  (case User_findById i st of
                     None \<Rightarrow> False
                   | Some currentUser \<Rightarrow> uid u \<in> set (following currentUser)))
        in Inr \<lparr>profile_user = u, profile_tweets = tweetCount, isFollowing = isFollowing\<rparr>)"

section \<open>\<open>models/Tweet.js\<close>: validation on save\<close>

text \<open>
  \<open>new Tweet(data)\<close> takes the fields the caller supplies; \<open>content\<close> and \<open>image\<close> may be
  left \<open>undefined\<close>. \<open>save()\<close> runs the schema: \<open>content\<close> is declared
  \<open>{ type: String, required: true, trim: true, maxlength: 280 }\<close>. The \<open>trim\<close> setter
  is \<open>String.prototype.trim\<close>: it strips white space and line terminators at both ends
  (of the characters below 256, which are the ones a \<open>char\<close> holds, these are 0x09 to
  0x0D, the space 0x20 and the no-break space 0xA0); the \<open>required\<close> validator of a String path rejects
  \<open>undefined\<close> and the empty string, and \<open>maxlength\<close> rejects more than 280 characters.
  A rejected document makes \<open>save()\<close> throw and nothing is written. The arrays default
  to empty and \<open>pinned\<close> to \<open>false\<close>; the \<open>_id\<close> and the time stamp come from outside.
\<close>

record TweetData =
  d_user :: oid
  d_content :: "string option"
  d_image :: "string option"
  d_retweetData :: "oid option"
  d_replyTo :: "oid option"

definition is_space :: "char \<Rightarrow> bool" where
  "is_space c = (c \<in> set [CHR '' '', CHR 0x09, CHR 0x0A, CHR 0x0B, CHR 0x0C, CHR 0x0D,
     CHR 0xA0])"

definition trim :: "string \<Rightarrow> string" where
  "trim s = rev (dropWhile is_space (rev (dropWhile is_space s)))"

definition validate :: "TweetData \<Rightarrow> oid \<Rightarrow> nat \<Rightarrow> Tweet option" where
  "validate d new_id now =
    (case d_content d of
       None \<Rightarrow> None
     | Some c \<Rightarrow>
        if trim c = [] \<or> 280 < length (trim c) then None
        else Some \<lparr>tid = new_id, user = d_user d, content = trim c, image = d_image d,
                   likes = [], retweets = [], retweetData = d_retweetData d,
                   replyTo = d_replyTo d, pinned = False, createdAt = now\<rparr>)"

definition save :: "TweetData \<Rightarrow> oid \<Rightarrow> nat \<Rightarrow> store \<Rightarrow> (Tweet \<times> store) option" where
  "save d new_id now st =
    (case validate d new_id now of
       None \<Rightarrow> None
     | Some t \<Rightarrow> Some (t, st\<lparr>tweets := tweets st @ [t]\<rparr>))"

section \<open>The tweets routes\<close>

text \<open>
  What a handler sends for a tweet: the document, and the two flags when the handler
  adds them (\<open>None\<close> when the field is absent from the JSON).
\<close>

record TweetView =
  doc :: Tweet
  isLiked :: "bool option"
  isRetweeted :: "bool option"

definition plain :: "Tweet \<Rightarrow> TweetView" where
  "plain t = \<lparr>doc = t, isLiked = None, isRetweeted = None\<rparr>"

definition withUserInteraction :: "oid \<Rightarrow> Tweet \<Rightarrow> TweetView" where
  "withUserInteraction i t =
    \<lparr>doc = t, isLiked = Some (i \<in> set (likes t)), isRetweeted = Some (i \<in> set (retweets t))\<rparr>"

text \<open>
  \<open>.sort({ createdAt: -1 })\<close>: newest first. The store leaves the order of documents
  with equal time stamps open; here they keep their collection order.
\<close>

fun insert_desc :: "Tweet \<Rightarrow> Tweet list \<Rightarrow> Tweet list" where
  "insert_desc x [] = [x]"
| "insert_desc x (y # ys) =
    (if createdAt y \<le> createdAt x then x # y # ys else y # insert_desc x ys)"

definition sort_desc :: "Tweet list \<Rightarrow> Tweet list" where
  "sort_desc ts = foldr insert_desc ts []"

text \<open>
  \<open>GET /api/tweets\<close>. \<open>page_q\<close> and \<open>limit_q\<close> are \<open>parseInt\<close> of the query parameters,
  \<open>None\<close> for \<open>NaN\<close> (absent or not a number); \<open>x || d\<close> replaces \<open>NaN\<close> and \<open>0\<close> by \<open>d\<close>.
  \<open>me\<close> and \<open>my_following\<close> are \<open>req.user.id\<close> and \<open>req.user.following\<close>. The store
  refuses a negative \<open>skip\<close> (status 500 through the \<open>catch\<close>) and reads a negative
  \<open>limit\<close> as its absolute value.
\<close>

definition or_default :: "int option \<Rightarrow> int \<Rightarrow> int" where
  "or_default x d = (case x of None \<Rightarrow> d | Some n \<Rightarrow> if n = 0 then d else n)"

definition getTimeline ::
  "store \<Rightarrow> oid \<Rightarrow> oid list \<Rightarrow> int option \<Rightarrow> int option \<Rightarrow> failure + TweetView list" where
  "getTimeline st me my_following page_q limit_q =
    (let page = or_default page_q 1;
         limit = or_default limit_q 10;
         skip = (page - 1) * limit;
         following = my_following @ [me]
     in if skip < 0 then Inl (Failure 500 ''Server error'')
        else Inr (map (withUserInteraction me)
               (take (nat \<bar>limit\<bar>) (drop (nat skip)
                 (sort_desc (filter (\<lambda>t. user t \<in> set following \<and> replyTo t = None)
                    (tweets st)))))))"

text \<open>
  \<open>POST /api/tweets\<close>. \<open>content_b\<close> and \<open>replyTo_b\<close> are the body fields, \<open>file\<close> the path of
  the uploaded image if there is one, \<open>upload\<close> the media store (\<open>None\<close> when it throws).
\<close>

definition createTweet ::
  "(string \<Rightarrow> string option) \<Rightarrow> oid \<Rightarrow> nat \<Rightarrow> store \<Rightarrow> oid \<Rightarrow> string option \<Rightarrow>
   oid option \<Rightarrow> string option \<Rightarrow> (failure + TweetView) \<times> store" where
  "createTweet upload new_id now st me content_b replyTo_b file =
    (if (content_b = None \<or> content_b = Some []) \<and> file = None
     then (Inl (Failure 400 ''Tweet content is required''), st)
     else case (case file of None \<Rightarrow> Some [] | Some path \<Rightarrow> upload path) of
       None \<Rightarrow> (Inl (Failure 500 ''Server error''), st)
     | Some imageUrl \<Rightarrow>
        let tweetData = \<lparr>d_user = me,
                         d_content = Some (case content_b of None \<Rightarrow> [] | Some c \<Rightarrow> c),
                         d_image = Some imageUrl, d_retweetData = None, d_replyTo = None\<rparr>
        in case (case replyTo_b of
                   None \<Rightarrow> Inr tweetData
                 | Some r \<Rightarrow>
                    (case Tweet_findById r st of
                       None \<Rightarrow> Inl (Failure 404 ''Tweet to reply to not found'')
                     | Some parentTweet \<Rightarrow> Inr (tweetData\<lparr>d_replyTo := Some r\<rparr>))) of
             Inl e \<Rightarrow> (Inl e, st)
           | Inr d \<Rightarrow>
              (case save d new_id now st of
                 None \<Rightarrow> (Inl (Failure 500 ''Server error''), st)
               | Some (tweet, st') \<Rightarrow>
                  (Inr \<lparr>doc = tweet, isLiked = Some False, isRetweeted = Some False\<rparr>, st')))"

text \<open>\<open>GET /api/tweets/:id\<close>.\<close>

definition getTweet :: "verifier \<Rightarrow> store \<Rightarrow> oid \<Rightarrow> string option \<Rightarrow> failure + TweetView" where
  "getTweet lib st i authorization =
    (case Tweet_findById i st of
       None \<Rightarrow> Inl (Failure 404 ''Tweet not found'')
     | Some tweet \<Rightarrow>
        (case decoded_id (tweets_jwt lib) authorization of
           None \<Rightarrow> Inr \<lparr>doc = tweet, isLiked = Some False, isRetweeted = Some False\<rparr>
         | Some v \<Rightarrow> Inr (withUserInteraction v tweet)))"

text \<open>\<open>DELETE /api/tweets/:id\<close>.\<close>

definition deleteTweet :: "store \<Rightarrow> oid \<Rightarrow> oid \<Rightarrow> (failure + string) \<times> store" where
  "deleteTweet st me i =
    (case Tweet_findById i st of
       None \<Rightarrow> (Inl (Failure 404 ''Tweet not found''), st)
     | Some tweet \<Rightarrow>
        if user tweet \<noteq> me then (Inl (Failure 401 ''User not authorized''), st)
        else
          let st1 = st\<lparr>tweets := deleteOne (\<lambda>t. tid t = tid tweet) (tweets st)\<rparr>;
              st2 = st1\<lparr>tweets := deleteMany (\<lambda>t. replyTo t = Some i) (tweets st1)\<rparr>
          in (Inr ''Tweet deleted'', st2))"

text \<open>\<open>POST /api/tweets/:id/like\<close>.\<close>

definition like :: "store \<Rightarrow> oid \<Rightarrow> oid \<Rightarrow> (failure + string) \<times> store" where
  "like st me i =
    (case Tweet_findById i st of
       None \<Rightarrow> (Inl (Failure 404 ''Tweet not found''), st)
     | Some tweet \<Rightarrow>
        if me \<in> set (likes tweet) then
          (Inr ''Tweet unliked'',
           Tweet_findByIdAndUpdate i (\<lambda>t. t\<lparr>likes := pull me (likes t)\<rparr>) st)
        else
          (Inr ''Tweet liked'',
           Tweet_findByIdAndUpdate i (\<lambda>t. t\<lparr>likes := addToSet me (likes t)\<rparr>) st))"

text \<open>
  \<open>POST /api/tweets/:id/retweet\<close>. The membership update has been written when the
  wrapper is saved, so a \<open>save()\<close> that throws leaves it in place and the handler answers
  500 from its \<open>catch\<close>.
\<close>

definition retweet :: "oid \<Rightarrow> nat \<Rightarrow> store \<Rightarrow> oid \<Rightarrow> oid \<Rightarrow> (failure + string) \<times> store" where
  "retweet new_id now st me i =
    (case Tweet_findById i st of
       None \<Rightarrow> (Inl (Failure 404 ''Tweet not found''), st)
     | Some tweet \<Rightarrow>
        if me \<in> set (retweets tweet) then
          let st1 = Tweet_findByIdAndUpdate i (\<lambda>t. t\<lparr>retweets := pull me (retweets t)\<rparr>) st;
              st2 = st1\<lparr>tweets := deleteOne (\<lambda>t. user t = me \<and> retweetData t = Some i)
                                     (tweets st1)\<rparr>
          in (Inr ''Tweet unretweeted'', st2)
        else
          let st1 = Tweet_findByIdAndUpdate i
                      (\<lambda>t. t\<lparr>retweets := addToSet me (retweets t)\<rparr>) st
          in case save \<lparr>d_user = me, d_content = None, d_image = None,
                         d_retweetData = Some i, d_replyTo = None\<rparr> new_id now st1 of
               None \<Rightarrow> (Inl (Failure 500 ''Server error''), st1)
             | Some (rt, st2) \<Rightarrow> (Inr ''Tweet retweeted'', st2))"

text \<open>\<open>GET /api/tweets/:id/comments\<close>.\<close>

definition getComments :: "verifier \<Rightarrow> store \<Rightarrow> oid \<Rightarrow> string option \<Rightarrow> failure + TweetView list" where
  "getComments lib st i authorization =
    (let comments = sort_desc (filter (\<lambda>t. replyTo t = Some i) (tweets st))
     in case decoded_id (tweets_jwt lib) authorization of
          None \<Rightarrow> Inr (map plain comments)
        | Some v \<Rightarrow> Inr (map (withUserInteraction v) comments))"

section \<open>\<open>routes/search.js\<close>\<close>

text \<open>
  \<open>content: { $regex: query, $options: 'i' }\<close> hands the query to the store's regular
  expression engine. Two kinds of pattern character are modelled here: an ordinary
  character matches itself up to (ASCII) letter case, and \<open>.\<close> matches any character but a
  line feed; a match may start anywhere in the content. A query with any other
  metacharacter goes to \<open>engine\<close>, the rest of the store's engine, which gives \<open>None\<close>
  for a pattern it cannot compile (the query then throws and the handler answers 500).
\<close>

definition lower :: "char \<Rightarrow> char" where
  "lower c = (case map_of (zip ''ABCDEFGHIJKLMNOPQRSTUVWXYZ'' ''abcdefghijklmnopqrstuvwxyz'') c of
                None \<Rightarrow> c | Some l \<Rightarrow> l)"

definition metachar :: "char \<Rightarrow> bool" where
  "metachar c = (c \<in> set [CHR 0x5C, CHR ''^'', CHR ''$'', CHR ''.'', CHR ''|'', CHR ''?'',
     CHR ''*'', CHR ''+'', CHR ''('', CHR '')'', CHR ''['', CHR '']'', CHR ''{'', CHR ''}''])"

fun match_here :: "string \<Rightarrow> string \<Rightarrow> bool" where
  "match_here [] s = True"
| "match_here (p # ps) [] = False"
| "match_here (p # ps) (c # cs) =
    ((if p = CHR ''.'' then c \<noteq> CHR 0x0A else lower p = lower c) \<and> match_here ps cs)"

fun match_anywhere :: "string \<Rightarrow> string \<Rightarrow> bool" where
  "match_anywhere p [] = match_here p []"
| "match_anywhere p (c # cs) = (match_here p (c # cs) \<or> match_anywhere p cs)"

definition regex_i :: "(string \<Rightarrow> (string \<Rightarrow> bool) option) \<Rightarrow> string \<Rightarrow> (string \<Rightarrow> bool) option" where
  "regex_i engine q =
    (if \<forall>c\<in>set q. \<not> metachar c \<or> c = CHR ''.'' then Some (match_anywhere q) else engine q)"

text \<open>\<open>GET /api/search/tweets\<close>; \<open>q\<close> is \<open>req.query.q\<close>.\<close>

definition searchTweets ::
  "(string \<Rightarrow> (string \<Rightarrow> bool) option) \<Rightarrow> verifier \<Rightarrow> store \<Rightarrow> string option \<Rightarrow>
   string option \<Rightarrow> failure + TweetView list" where
  "searchTweets engine lib st q authorization =
    (case q of
       None \<Rightarrow> Inl (Failure 400 ''Search query is required'')
     | Some query \<Rightarrow>
        if query = [] then Inl (Failure 400 ''Search query is required'')
        else case regex_i engine query of
          None \<Rightarrow> Inl (Failure 500 ''Server error'')
        | Some matches \<Rightarrow>
           let found = take 20 (sort_desc
                 (filter (\<lambda>t. matches (content t) \<and> replyTo t = None) (tweets st)))
           in case decoded_id (search_jwt lib) authorization of
                None \<Rightarrow> Inr (map plain found)
              | Some v \<Rightarrow> Inr (map (withUserInteraction v) found))"

section \<open>Well-formed stores\<close>

text \<open>The invariants of the data model, as predicates on a store.\<close>

definition symmetric :: "store \<Rightarrow> bool" where
  "symmetric st = (\<forall>a\<in>set (users st). \<forall>b\<in>set (users st).
      (uid b \<in> set (following a)) = (uid a \<in> set (followers b)))"

definition no_self_follow :: "store \<Rightarrow> bool" where
  "no_self_follow st =
    (\<forall>a\<in>set (users st). uid a \<notin> set (following a) \<and> uid a \<notin> set (followers a))"

definition duplicate_free :: "store \<Rightarrow> bool" where
  "duplicate_free st =
    ((\<forall>u\<in>set (users st). distinct (following u) \<and> distinct (followers u)) \<and>
     (\<forall>t\<in>set (tweets st). distinct (likes t) \<and> distinct (retweets t)))"




text \<open>A sequence of follow requests, each given as (actor, id in the URL), run one after
  the other whatever each one answers.\<close>

definition followToggles ::
  "(string \<Rightarrow> oid option) \<Rightarrow> store \<Rightarrow> (oid \<times> string) list \<Rightarrow> store" where
  "followToggles cast_other st calls =
     foldl (\<lambda>s (a, param). snd (follow cast_other s a param)) st calls"

text \<open>What one follow request that reaches its updates does to a user document: \<open>a\<close> is
  the actor, \<open>b\<close> the id the parameter is cast to, \<open>un\<close> whether it unfollows.\<close>

definition follow_edit :: "oid \<Rightarrow> oid \<Rightarrow> bool \<Rightarrow> User \<Rightarrow> User" where
  "follow_edit a b un u =
     (let u1 = (if uid u = a
                then u\<lparr>following := (if un then pull b (following u)
                                     else addToSet b (following u))\<rparr>
                else u)
      in if uid u1 = b
         then u1\<lparr>followers := (if un then pull a (followers u1) else addToSet a (followers u1))\<rparr>
         else u1)"

text \<open>The specification's words for search: the content contains the query as a substring when
  letter case is ignored.\<close>

definition contains_ci :: "string \<Rightarrow> string \<Rightarrow> bool" where
  "contains_ci q s = (\<exists>pre suf. map lower s = pre @ map lower q @ suf)"

definition newest_first :: "Tweet list \<Rightarrow> bool" where
  "newest_first ts = sorted_wrt (\<lambda>x y. createdAt y \<le> createdAt x) ts"

section \<open>An example store\<close>

text \<open>
  Three users, of whom bob follows alice, and four tweets: a post by alice that carol has
  liked and bob has retweeted, bob's reply to it, carol's reply to that reply, and the
  stored wrapper of bob's retweet.
\<close>

definition alice :: User where
  "alice = \<lparr>uid = 1, username = ''alice'', following = [], followers = [2]\<rparr>"

definition bob :: User where
  "bob = \<lparr>uid = 2, username = ''bob'', following = [1], followers = []\<rparr>"

definition carol :: User where
  "carol = \<lparr>uid = 3, username = ''carol'', following = [], followers = []\<rparr>"

definition hello :: Tweet where
  "hello = \<lparr>tid = 10, user = 1, content = ''Hello world'', image = Some [], likes = [3],
      retweets = [2], retweetData = None, replyTo = None, pinned = False, createdAt = 100\<rparr>"

definition reply :: Tweet where
  "reply = \<lparr>tid = 11, user = 2, content = ''hi alice'', image = Some [], likes = [],
      retweets = [], retweetData = None, replyTo = Some 10, pinned = False, createdAt = 110\<rparr>"

definition grand_reply :: Tweet where
  "grand_reply = \<lparr>tid = 12, user = 3, content = ''hi bob'', image = Some [], likes = [],
      retweets = [], retweetData = None, replyTo = Some 11, pinned = False, createdAt = 120\<rparr>"

definition wrapper :: Tweet where
  "wrapper = \<lparr>tid = 13, user = 2, content = ''rt'', image = None, likes = [],
      retweets = [], retweetData = Some 10, replyTo = None, pinned = False, createdAt = 130\<rparr>"

definition demo :: store where
  "demo = \<lparr>users = [alice, bob, carol], tweets = [hello, reply, grand_reply, wrapper]\<rparr>"

text \<open>A token library that accepts one token for bob and one for carol.\<close>

definition token_of :: verifier where
  "token_of token =
    (if token = ''bob-token'' then Some 2 else if token = ''carol-token'' then Some 3 else None)"

text \<open>An engine that compiles no pattern beyond the modelled ones.\<close>

definition no_engine :: "string \<Rightarrow> (string \<Rightarrow> bool) option" where
  "no_engine q = None"

text \<open>A cast that accepts nothing but 24 hexadecimal digits.\<close>

definition no_cast :: "string \<Rightarrow> oid option" where
  "no_cast s = None"

text \<open>
  Two users whose ids end in the hexadecimal digits \<open>a\<close> and \<open>b\<close>, with no edges; and the
  same two users in a store that is not symmetric: ben lists ann as a follower, ann does
  not follow ben.
\<close>

definition ann :: User where
  "ann = \<lparr>uid = 10, username = ''ann'', following = [], followers = []\<rparr>"

definition ben :: User where
  "ben = \<lparr>uid = 11, username = ''ben'', following = [], followers = []\<rparr>"

definition club :: store where
  "club = \<lparr>users = [ann, ben], tweets = []\<rparr>"

definition lopsided :: store where
  "lopsided = \<lparr>users = [ann, ben\<lparr>followers := [10]\<rparr>], tweets = []\<rparr>"

section \<open>Facts about the store primitives\<close>

lemma set_pull [simp]: "set (pull x xs) = set xs - {x}"
  by (auto simp: pull_def)

lemma set_addToSet [simp]: "set (addToSet x xs) = insert x (set xs)"
  by (auto simp: addToSet_def)

lemma distinct_pull: "distinct xs \<Longrightarrow> distinct (pull x xs)"
  by (simp add: pull_def)

lemma distinct_addToSet: "distinct xs \<Longrightarrow> distinct (addToSet x xs)"
  by (simp add: addToSet_def)

lemma updateOne_map:
  "distinct (map k ds) \<Longrightarrow>
   updateOne (\<lambda>d. k d = i) f ds = map (\<lambda>d. if k d = i then f d else d) ds"
proof (induction ds)
  case Nil
  then show ?case by simp
next
  case (Cons d ds)
  show ?case
  proof (cases "k d = i")
    case True
    with Cons.prems have "\<forall>e\<in>set ds. k e \<noteq> i" by (auto simp: image_iff)
    then have "map (\<lambda>d. if k d = i then f d else d) ds = ds"
      by (simp add: map_idI)
    with True show ?thesis by simp
  next
    case False
    with Cons show ?thesis by simp
  qed
qed

lemma findOne_Some: "findOne P ds = Some d \<Longrightarrow> d \<in> set ds \<and> P d"
  by (induction ds) (auto split: if_splits)

lemma findOne_None: "findOne P ds = None \<longleftrightarrow> (\<forall>d\<in>set ds. \<not> P d)"
  by (induction ds) auto

lemma findOne_unique:
  "distinct (map k ds) \<Longrightarrow> findOne (\<lambda>d. k d = i) ds = Some d \<Longrightarrow> e \<in> set ds \<Longrightarrow> k e = i \<Longrightarrow> e = d"
  using findOne_Some[of "\<lambda>d. k d = i" ds d] by (auto simp: distinct_map dest: inj_onD)

lemma updateOne_pointwise:
  "\<forall>d\<in>set ds. Q d \<Longrightarrow> (\<And>d. Q d \<Longrightarrow> Q (f d)) \<Longrightarrow> \<forall>d\<in>set (updateOne P f ds). Q d"
  by (induction ds) auto

lemma set_deleteOne: "set (deleteOne P ds) \<subseteq> set ds"
  by (induction ds) auto

lemma deleteOne_filter:
  "distinct (map k ds) \<Longrightarrow> deleteOne (\<lambda>d. k d = i) ds = filter (\<lambda>d. k d \<noteq> i) ds"
proof (induction ds)
  case Nil
  then show ?case by simp
next
  case (Cons d ds)
  show ?case
  proof (cases "k d = i")
    case True
    with Cons.prems have "\<forall>e\<in>set ds. k e \<noteq> i" by (auto simp: image_iff)
    then have "filter (\<lambda>d. k d \<noteq> i) ds = ds" by simp
    with True show ?thesis by simp
  next
    case False
    with Cons show ?thesis by simp
  qed
qed

lemma validate_fresh:
  "validate d n now = Some t \<Longrightarrow> likes t = [] \<and> retweets t = []"
  by (auto simp: validate_def split: option.splits if_splits)


lemma mset_insert_desc: "mset (insert_desc x ys) = add_mset x (mset ys)"
  by (induction ys) auto

lemma mset_sort_desc: "mset (sort_desc ts) = mset ts"
  by (induction ts) (auto simp: sort_desc_def mset_insert_desc)

lemma set_insert_desc: "set (insert_desc x ys) = insert x (set ys)"
  by (induction ys) auto

lemma newest_first_insert_desc:
  "newest_first ys \<Longrightarrow> newest_first (insert_desc x ys)"
  unfolding newest_first_def
  by (induction ys) (auto simp: set_insert_desc)

lemma newest_first_sort_desc: "newest_first (sort_desc ts)"
proof (induction ts)
  case Nil
  show ?case by (simp add: sort_desc_def newest_first_def)
next
  case (Cons t ts)
  then show ?case by (simp add: sort_desc_def newest_first_insert_desc)
qed

lemma lower_not_dot: "\<not> metachar p \<Longrightarrow> p \<noteq> CHR ''.''"
  by (auto simp: metachar_def)

lemma match_here_literal:
  "\<forall>c\<in>set q. \<not> metachar c \<Longrightarrow> match_here q s = (\<exists>suf. map lower s = map lower q @ suf)"
proof (induction q s rule: match_here.induct)
  case (1 s)
  show ?case by simp
next
  case (2 p ps)
  show ?case by simp
next
  case (3 p ps c cs)
  then have "p \<noteq> CHR ''.''" by (simp add: lower_not_dot)
  with 3 show ?case by auto
qed

lemma match_anywhere_literal:
  assumes "\<forall>c\<in>set q. \<not> metachar c"
  shows "match_anywhere q s = contains_ci q s"
proof (induction s)
  case Nil
  show ?case using assms by (simp add: contains_ci_def match_here_literal)
next
  case (Cons c cs)
  have "contains_ci q (c # cs) = ((\<exists>suf. map lower (c # cs) = map lower q @ suf) \<or> contains_ci q cs)"
  proof
    assume "contains_ci q (c # cs)"
    then obtain pre suf where e: "map lower (c # cs) = pre @ map lower q @ suf"
      by (auto simp: contains_ci_def)
    show "(\<exists>suf. map lower (c # cs) = map lower q @ suf) \<or> contains_ci q cs"
    proof (cases pre)
      case Nil
      with e show ?thesis by auto
    next
      case (Cons x pre')
      with e have "map lower cs = pre' @ map lower q @ suf" by simp
      then show ?thesis by (auto simp: contains_ci_def)
    qed
  next
    assume "(\<exists>suf. map lower (c # cs) = map lower q @ suf) \<or> contains_ci q cs"
    then show "contains_ci q (c # cs)"
    proof
      assume "\<exists>suf. map lower (c # cs) = map lower q @ suf"
      then obtain suf where "map lower (c # cs) = [] @ map lower q @ suf" by auto
      then show ?thesis unfolding contains_ci_def by blast
    next
      assume "contains_ci q cs"
      then obtain pre suf where "map lower cs = pre @ map lower q @ suf"
        by (auto simp: contains_ci_def)
      then have "map lower (c # cs) = (lower c # pre) @ map lower q @ suf" by simp
      then show ?thesis unfolding contains_ci_def by blast
    qed
  qed
  with Cons show ?case using assms by (simp add: match_here_literal)
qed

lemma regex_i_literal:
  "\<forall>c\<in>set q. \<not> metachar c \<Longrightarrow> regex_i engine q = Some (match_anywhere q)"
  by (auto simp: regex_i_def)

lemma doc_plain: "map (doc \<circ> plain) ts = ts"
  by (simp add: comp_def plain_def)

lemma doc_with: "map (doc \<circ> withUserInteraction v) ts = ts"
  by (simp add: comp_def withUserInteraction_def)

lemma contains_ci_chars:
  assumes "contains_ci q s"
  shows "set (map lower q) \<subseteq> set (map lower s)"
proof -
  from assms obtain pre suf where "map lower s = pre @ map lower q @ suf"
    by (auto simp: contains_ci_def)
  then have "set (map lower s) = set pre \<union> set (map lower q) \<union> set suf"
    by (simp only: set_append Un_assoc)
  then show ?thesis by blast
qed

lemma newest_first_take: "newest_first ts \<Longrightarrow> newest_first (take n ts)"
  unfolding newest_first_def by (rule sorted_wrt_take)

lemma newest_first_drop: "newest_first ts \<Longrightarrow> newest_first (drop n ts)"
  unfolding newest_first_def by (rule sorted_wrt_drop)

lemmas demo_defs = demo_def alice_def bob_def carol_def hello_def reply_def grand_reply_def
  wrapper_def

section \<open>Rendering and casting ids\<close>





lemma to_hex_unfold:
  "to_hex n v = (if n = 0 then [] else to_hex (n - 1) (v div 16) @ [hex_digit v])"
  by (cases n) simp_all




lemmas club_defs = club_def lopsided_def ann_def ben_def no_cast_def

lemmas render_defs = toString_def to_hex_unfold hex_digit_def castObjectId_def hex_value_def

lemma toString_1: "toString 1 = ''000000000000000000000001''"
  by (simp add: render_defs)

lemma toString_10: "toString 10 = ''00000000000000000000000a''"
  by (simp add: render_defs)

lemma toString_11: "toString 11 = ''00000000000000000000000b''"
  by (simp add: render_defs)

lemma cast_upper_A: "castObjectId no_cast ''00000000000000000000000A'' = Some 10"
  by (simp add: castObjectId_def hex_value_def)

lemma cast_upper_B: "castObjectId no_cast ''00000000000000000000000B'' = Some 11"
  by (simp add: castObjectId_def hex_value_def)

lemma toString_2: "toString 2 = ''000000000000000000000002''"
  by (simp add: render_defs)

lemma toString_3: "toString 3 = ''000000000000000000000003''"
  by (simp add: render_defs)

lemma cast_lower_a: "castObjectId no_cast ''00000000000000000000000a'' = Some 10"
  by (simp add: castObjectId_def hex_value_def)

lemma cast_lower_b: "castObjectId no_cast ''00000000000000000000000b'' = Some 11"
  by (simp add: castObjectId_def hex_value_def)

lemma cast_1: "castObjectId no_cast ''000000000000000000000001'' = Some 1"
  by (simp add: castObjectId_def hex_value_def)

lemma cast_3: "castObjectId no_cast ''000000000000000000000003'' = Some 3"
  by (simp add: castObjectId_def hex_value_def)

lemma toString_Suc_0: "toString (Suc 0) = ''000000000000000000000001''"
  using toString_1 by simp

lemma cast_Suc_0: "castObjectId no_cast ''000000000000000000000001'' = Some (Suc 0)"
  using cast_1 by simp

lemmas follow_eval = toString_Suc_0 cast_Suc_0 follow_def User_findById_def User_findByIdAndUpdate_def addToSet_def pull_def
  toString_1 toString_2 toString_3 toString_10 toString_11
  cast_upper_A cast_upper_B cast_lower_a cast_lower_b cast_1 cast_3

section \<open>Properties of the follow graph\<close>

lemma updateOne_uid_twice:
  assumes d: "distinct (map uid us)" and f: "\<And>u. uid (f u) = uid u"
  shows "updateOne (\<lambda>u. uid u = b) g (updateOne (\<lambda>u. uid u = a) f us) =
         map (\<lambda>u. let u1 = (if uid u = a then f u else u) in if uid u1 = b then g u1 else u1) us"
proof -
  let ?m = "map (\<lambda>u. if uid u = a then f u else u) us"
  have 1: "updateOne (\<lambda>u. uid u = a) f us = ?m"
    using d by (rule updateOne_map)
  have "map uid ?m = map uid us"
    by (auto simp: f)
  with d have "distinct (map uid ?m)" by (simp only:)
  then have "updateOne (\<lambda>u. uid u = b) g ?m = map (\<lambda>u. if uid u = b then g u else u) ?m"
    by (rule updateOne_map)
  also have "\<dots> = map (\<lambda>u. let u1 = (if uid u = a then f u else u)
                            in if uid u1 = b then g u1 else u1) us"
    by (simp add: Let_def)
  finally show ?thesis using 1 by simp
qed

lemma follow_users:
  assumes "distinct (map uid (users st))" "param \<noteq> toString a"
    and "castObjectId co param = Some b"
    and "User_findById b st = Some ub" "User_findById a st = Some ua"
  shows "users (snd (follow co st a param)) =
         map (follow_edit a b (param \<in> set (map toString (following ua)))) (users st)"
  using assms
  by (auto simp: follow_def User_findByIdAndUpdate_def Let_def updateOne_uid_twice follow_edit_def)


lemma follow_outcome:
  assumes "distinct (map uid (users st))"
  shows "snd (follow co st a param) = st \<or>
    (\<exists>b un ua ub. User_findById a st = Some ua \<and> User_findById b st = Some ub \<and>
       users (snd (follow co st a param)) = map (follow_edit a b un) (users st))"
proof (cases "param = toString a \<or> castObjectId co param = None")
  case True
  then show ?thesis by (auto simp: follow_def)
next
  case False
  then obtain b where b: "param \<noteq> toString a" "castObjectId co param = Some b" by auto
  show ?thesis
  proof (cases "User_findById b st = None \<or> User_findById a st = None")
    case True
    with b show ?thesis by (auto simp: follow_def split: option.splits)
  next
    case False
    then obtain ua ub where "User_findById b st = Some ub" "User_findById a st = Some ua"
      by auto
    with follow_users[OF assms b this] show ?thesis by blast
  qed
qed

lemma uid_follow_edit [simp]: "uid (follow_edit a b un u) = uid u"
  by (simp add: follow_edit_def Let_def)

lemma follow_distinct:
  assumes "distinct (map uid (users st))"
  shows "distinct (map uid (users (snd (follow co st a param))))"
  using follow_outcome[OF assms, of co a param] assms
  by (auto simp: comp_def)

lemma follow_edit_symmetric:
  assumes d: "distinct (map uid us)"
    and s: "\<forall>x\<in>set us. \<forall>y\<in>set us. (uid y \<in> set (following x)) = (uid x \<in> set (followers y))"
    and x: "x \<in> set us" and y: "y \<in> set us"
  shows "(uid (follow_edit a b un y) \<in> set (following (follow_edit a b un x))) =
         (uid (follow_edit a b un x) \<in> set (followers (follow_edit a b un y)))"
proof -
  from s x y have "(uid y \<in> set (following x)) = (uid x \<in> set (followers y))" by blast
  then show ?thesis
    by (auto simp: follow_edit_def Let_def)
qed

lemma follow_symmetric:
  assumes d: "distinct (map uid (users st))" and s: "symmetric st"
  shows "symmetric (snd (follow co st a param))"
  using follow_outcome[OF d, of co a param]
proof
  assume "snd (follow co st a param) = st"
  with s show ?thesis by simp
next
  assume "\<exists>b un ua ub. User_findById a st = Some ua \<and> User_findById b st = Some ub \<and>
       users (snd (follow co st a param)) = map (follow_edit a b un) (users st)"
  then obtain b un where u: "users (snd (follow co st a param)) = map (follow_edit a b un) (users st)"
    by blast
  from s have s': "\<forall>x\<in>set (users st). \<forall>y\<in>set (users st).
      (uid y \<in> set (following x)) = (uid x \<in> set (followers y))"
    by (simp add: symmetric_def)
  show ?thesis
    unfolding symmetric_def u
    using follow_edit_symmetric[OF d s'] by auto
qed

text \<open>Symmetry alone is kept by every sequence of follow requests.\<close>

lemma followToggles_symmetric:
  "distinct (map uid (users st)) \<Longrightarrow> symmetric st \<Longrightarrow>
   symmetric (followToggles co st calls) \<and> distinct (map uid (users (followToggles co st calls)))"
proof (induction calls arbitrary: st)
  case Nil
  then show ?case by (simp add: followToggles_def)
next
  case (Cons c calls)
  obtain a param where c: "c = (a, param)" by (cases c)
  have "followToggles co st (c # calls) = followToggles co (snd (follow co st a param)) calls"
    by (simp add: followToggles_def c)
  with Cons.IH[of "snd (follow co st a param)"] Cons.prems show ?case
    by (simp add: follow_symmetric follow_distinct)
qed



text \<open>
  C9. Ann's id renders as \<open>00000000000000000000000a\<close>. A follow request of ann for that
  very string is refused with status 400. The same id spelled with an upper-case \<open>A\<close> is
  a different string, so the first test lets it pass; the store casts it to ann's id, and
  both updates run: the handler answers "User followed" and ann is in her own
  \<open>following\<close> and \<open>followers\<close>.
\<close>

theorem follow_self_upper_case:
  "toString 10 = ''00000000000000000000000a''
   \<and> follow no_cast club 10 ''00000000000000000000000a''
       = (Inl (Failure 400 ''You cannot follow yourself''), club)
   \<and> castObjectId no_cast ''00000000000000000000000A'' = Some 10
   \<and> follow no_cast club 10 ''00000000000000000000000A''
       = (Inr ''User followed'',
          club\<lparr>users := [ann\<lparr>following := [10], followers := [10]\<rparr>, ben]\<rparr>)"
  by (simp add: follow_eval club_def ann_def ben_def)

text \<open>
  C3. The store \<open>club\<close> has unique ids, a symmetric graph and no self-follow. After the one
  follow request of ann for her own id in upper case the graph is still symmetric, but
  ann's id is in her own \<open>following\<close> and \<open>followers\<close>: the self-follow half of the
  invariant is lost.
\<close>

theorem followToggles_self_follow:
  "distinct (map uid (users club)) \<and> symmetric club \<and> no_self_follow club
   \<and> followToggles no_cast club [(10, ''00000000000000000000000A'')]
       = club\<lparr>users := [ann\<lparr>following := [10], followers := [10]\<rparr>, ben]\<rparr>
   \<and> symmetric (followToggles no_cast club [(10, ''00000000000000000000000A'')])
   \<and> \<not> no_self_follow (followToggles no_cast club [(10, ''00000000000000000000000A'')])"
  by (simp add: followToggles_def follow_eval club_def ann_def ben_def symmetric_def
      no_self_follow_def)

text \<open>The part of it that contradicts the invariant, on its own.\<close>

theorem followToggles_self_follow_witness:
  "\<not> no_self_follow (followToggles no_cast club [(10, ''00000000000000000000000A'')])"
  using followToggles_self_follow by blast




section \<open>Duplicate-free membership arrays\<close>

lemma duplicate_free_tweets:
  "duplicate_free st \<Longrightarrow> \<forall>t\<in>set ts. distinct (likes t) \<and> distinct (retweets t) \<Longrightarrow>
   duplicate_free (st\<lparr>tweets := ts\<rparr>)"
  by (simp add: duplicate_free_def)

lemma duplicate_free_users:
  "duplicate_free st \<Longrightarrow> \<forall>u\<in>set us. distinct (following u) \<and> distinct (followers u) \<Longrightarrow>
   duplicate_free (st\<lparr>users := us\<rparr>)"
  by (simp add: duplicate_free_def)

lemma like_duplicate_free:
  assumes "duplicate_free st"
  shows "duplicate_free (snd (like st me i))"
proof (cases "Tweet_findById i st")
  case None
  with assms show ?thesis by (simp add: like_def)
next
  case (Some tweet)
  have ts: "\<forall>t\<in>set (tweets st). distinct (likes t) \<and> distinct (retweets t)"
    using assms by (simp add: duplicate_free_def)
  have 1: "\<forall>t\<in>set (updateOne (\<lambda>t. tid t = i) (\<lambda>t. t\<lparr>likes := pull me (likes t)\<rparr>) (tweets st)).
             distinct (likes t) \<and> distinct (retweets t)"
    using ts by (rule updateOne_pointwise) (simp add: distinct_pull)
  have 2: "\<forall>t\<in>set (updateOne (\<lambda>t. tid t = i) (\<lambda>t. t\<lparr>likes := addToSet me (likes t)\<rparr>) (tweets st)).
             distinct (likes t) \<and> distinct (retweets t)"
    using ts by (rule updateOne_pointwise) (simp add: distinct_addToSet)
  show ?thesis
    using Some duplicate_free_tweets[OF assms 1] duplicate_free_tweets[OF assms 2]
    by (simp add: like_def Tweet_findByIdAndUpdate_def)
qed

lemma retweet_duplicate_free:
  assumes "duplicate_free st"
  shows "duplicate_free (snd (retweet n now st me i))"
proof (cases "Tweet_findById i st")
  case None
  with assms show ?thesis by (simp add: retweet_def)
next
  case (Some tweet)
  have ts: "\<forall>t\<in>set (tweets st). distinct (likes t) \<and> distinct (retweets t)"
    using assms by (simp add: duplicate_free_def)
  let ?p = "updateOne (\<lambda>t. tid t = i) (\<lambda>t. t\<lparr>retweets := pull me (retweets t)\<rparr>) (tweets st)"
  let ?a = "updateOne (\<lambda>t. tid t = i) (\<lambda>t. t\<lparr>retweets := addToSet me (retweets t)\<rparr>) (tweets st)"
  have 1: "\<forall>t\<in>set ?p. distinct (likes t) \<and> distinct (retweets t)"
    using ts by (rule updateOne_pointwise) (simp add: distinct_pull)
  have 2: "\<forall>t\<in>set ?a. distinct (likes t) \<and> distinct (retweets t)"
    using ts by (rule updateOne_pointwise) (simp add: distinct_addToSet)
  have 3: "\<forall>t\<in>set (deleteOne (\<lambda>t. user t = me \<and> retweetData t = Some i) ?p).
             distinct (likes t) \<and> distinct (retweets t)"
    using 1 set_deleteOne[of _ ?p] by blast
  have 4: "\<And>d rt. validate d n now = Some rt \<Longrightarrow>
             \<forall>t\<in>set (?a @ [rt]). distinct (likes t) \<and> distinct (retweets t)"
    using 2 by (auto dest: validate_fresh)
  show ?thesis
  proof (cases "me \<in> set (retweets tweet)")
    case True
    with Some duplicate_free_tweets[OF assms 3] show ?thesis
      by (simp add: retweet_def Tweet_findByIdAndUpdate_def Let_def)
  next
    case False
    with Some duplicate_free_tweets[OF assms 2] duplicate_free_tweets[OF assms 4] show ?thesis
      by (auto simp: retweet_def Tweet_findByIdAndUpdate_def Let_def save_def split: option.splits)
  qed
qed

lemma follow_duplicate_free:
  assumes "duplicate_free st"
  shows "duplicate_free (snd (follow co st a param))"
proof -
  have us: "\<forall>u\<in>set (users st). distinct (following u) \<and> distinct (followers u)"
    using assms by (simp add: duplicate_free_def)
  have step: "\<And>P f us. \<forall>u\<in>set us. distinct (following u) \<and> distinct (followers u) \<Longrightarrow>
     (\<And>u. distinct (following u) \<and> distinct (followers u) \<Longrightarrow>
           distinct (following (f u)) \<and> distinct (followers (f u)))
     \<Longrightarrow> \<forall>u\<in>set (updateOne P f us). distinct (following u) \<and> distinct (followers u)"
    by (rule updateOne_pointwise)
  have 1: "\<And>b. \<forall>u\<in>set (updateOne (\<lambda>u. uid u = b) (\<lambda>u. u\<lparr>followers := pull a (followers u)\<rparr>)
               (updateOne (\<lambda>u. uid u = a) (\<lambda>u. u\<lparr>following := pull b (following u)\<rparr>) (users st))).
           distinct (following u) \<and> distinct (followers u)"
    by (intro step us) (simp_all add: distinct_pull)
  have 2: "\<And>b. \<forall>u\<in>set (updateOne (\<lambda>u. uid u = b) (\<lambda>u. u\<lparr>followers := addToSet a (followers u)\<rparr>)
               (updateOne (\<lambda>u. uid u = a) (\<lambda>u. u\<lparr>following := addToSet b (following u)\<rparr>) (users st))).
           distinct (following u) \<and> distinct (followers u)"
    by (intro step us) (simp_all add: distinct_addToSet)
  show ?thesis
    using assms duplicate_free_users[OF assms 1] duplicate_free_users[OF assms 2]
    by (auto simp: follow_def User_findByIdAndUpdate_def Let_def split: option.splits)
qed

text \<open>
  C10. Starting from a store in which no \<open>likes\<close>, \<open>retweets\<close>, \<open>following\<close> or
  \<open>followers\<close> array holds a user id twice, a like request, a retweet request and a follow
  request each leave a store with the same property.
\<close>

theorem toggles_keep_duplicate_free:
  "duplicate_free st \<Longrightarrow>
   duplicate_free (snd (like st me i)) \<and>
   duplicate_free (snd (retweet new_id now st me i)) \<and>
   duplicate_free (snd (follow cast_other st me param))"
  by (simp add: like_duplicate_free retweet_duplicate_free follow_duplicate_free)

theorem toggles_keep_duplicate_free_witness:
  "duplicate_free demo \<and>
   duplicate_free (snd (like demo 2 10)) \<and>
   duplicate_free (snd (retweet 14 140 demo 2 10)) \<and>
   duplicate_free (snd (follow no_cast demo 2 (toString 3)))"
proof -
  have "duplicate_free demo" by (simp add: duplicate_free_def demo_defs)
  then show ?thesis
    using toggles_keep_duplicate_free [of demo 2 10 14 140 no_cast "toString 3"] by simp
qed

section \<open>Deleting a tweet\<close>

text \<open>
  C4. When tweet ids are unique, P is the stored tweet with id p and its author is the
  actor, the delete request answers "Tweet deleted" and the tweets left are exactly the
  former ones, in their order and unchanged, except P and the tweets whose \<open>replyTo\<close> is p.
  A retweet wrapper of P and a reply to a reply of P are therefore kept.
\<close>

theorem deleteTweet_effect:
  assumes "distinct (map tid (tweets st))" and "Tweet_findById p st = Some tweet"
    and "user tweet = me"
  shows "deleteTweet st me p =
     (Inr ''Tweet deleted'',
      st\<lparr>tweets := filter (\<lambda>t. tid t \<noteq> p \<and> replyTo t \<noteq> Some p) (tweets st)\<rparr>)"
proof -
  have "tid tweet = p"
    using findOne_Some[OF assms(2)[unfolded Tweet_findById_def]] by simp
  then show ?thesis
    using assms by (simp add: deleteTweet_def deleteMany_def deleteOne_filter Let_def conj_commute)
qed

theorem deleteTweet_effect_witness:
  "distinct (map tid (tweets demo)) \<and> Tweet_findById 10 demo = Some hello \<and> user hello = 1
   \<and> deleteTweet demo 1 10 = (Inr ''Tweet deleted'', demo\<lparr>tweets := [grand_reply, wrapper]\<rparr>)
   \<and> retweetData wrapper = Some 10 \<and> replyTo grand_reply = Some (tid reply)
   \<and> replyTo reply = Some 10"
proof -
  have d: "distinct (map tid (tweets demo))" by (simp add: demo_defs)
  have f: "Tweet_findById 10 demo = Some hello" by (simp add: Tweet_findById_def demo_defs)
  have u: "user hello = 1" by (simp add: hello_def)
  have k: "filter (\<lambda>t. tid t \<noteq> 10 \<and> replyTo t \<noteq> Some 10) (tweets demo) = [grand_reply, wrapper]"
    by (simp add: demo_defs)
  show ?thesis
    using d f u deleteTweet_effect [OF d f u] unfolding k
    by (simp add: wrapper_def grand_reply_def reply_def)
qed

section \<open>Searching tweets\<close>

text \<open>
  C7. For every non-empty query made only of characters that are not regular-expression
  metacharacters, the tweet search answers with exactly the non-reply tweets whose
  content contains the query as a substring when (ASCII) letter case is ignored, newest
  first, cut off after 20: the documents sent are the first 20 of the matching tweets
  sorted by \<open>createdAt\<close> descending, and that sorted list holds each matching tweet
  exactly once. An empty or absent query is refused with status 400.
\<close>

theorem searchTweets_literal:
  assumes "q \<noteq> []" and "\<forall>c\<in>set q. \<not> metachar c"
  shows "(\<exists>found. searchTweets engine lib st (Some q) authorization = Inr found
      \<and> map doc found = take 20 (sort_desc
            (filter (\<lambda>t. contains_ci q (content t) \<and> replyTo t = None) (tweets st)))
      \<and> mset (sort_desc (filter (\<lambda>t. contains_ci q (content t) \<and> replyTo t = None) (tweets st)))
          = mset (filter (\<lambda>t. contains_ci q (content t) \<and> replyTo t = None) (tweets st))
      \<and> newest_first (map doc found) \<and> length found \<le> 20)
    \<and> searchTweets engine lib st None authorization
        = Inl (Failure 400 ''Search query is required'')
    \<and> searchTweets engine lib st (Some []) authorization
        = Inl (Failure 400 ''Search query is required'')"
proof -
  let ?M = "filter (\<lambda>t. contains_ci q (content t) \<and> replyTo t = None) (tweets st)"
  let ?R = "take 20 (sort_desc ?M)"
  have m: "(\<lambda>t. match_anywhere q (content t) \<and> replyTo t = None)
         = (\<lambda>t. contains_ci q (content t) \<and> replyTo t = None)"
    using assms(2) by (simp add: match_anywhere_literal)
  have r: "searchTweets engine lib st (Some q) authorization =
     Inr (case decoded_id (search_jwt lib) authorization of
            None \<Rightarrow> map plain ?R | Some v \<Rightarrow> map (withUserInteraction v) ?R)"
    using assms by (simp add: searchTweets_def regex_i_literal m Let_def split: option.splits)
  have d: "map doc (case decoded_id (search_jwt lib) authorization of
            None \<Rightarrow> map plain ?R | Some v \<Rightarrow> map (withUserInteraction v) ?R) = ?R"
    by (simp add: doc_plain doc_with split: option.splits)
  have n: "newest_first ?R"
    by (simp add: newest_first_take newest_first_sort_desc)
  have l: "length (case decoded_id (search_jwt lib) authorization of
            None \<Rightarrow> map plain ?R | Some v \<Rightarrow> map (withUserInteraction v) ?R) \<le> 20"
    by (simp split: option.splits)
  have e: "searchTweets engine lib st None authorization
            = Inl (Failure 400 ''Search query is required'')"
    "searchTweets engine lib st (Some []) authorization
            = Inl (Failure 400 ''Search query is required'')"
    by (simp_all add: searchTweets_def)
  show ?thesis
    using r d n l e by (simp add: mset_sort_desc)
qed

text \<open>The search at the query \<open>hello\<close>, asked by carol, finds alice's post.\<close>

theorem searchTweets_literal_witness:
  "''hello'' \<noteq> [] \<and> filter metachar ''hello'' = []
   \<and> searchTweets no_engine token_of demo (Some ''hello'') (Some ''Bearer carol-token'')
       = Inr [\<lparr>doc = hello, isLiked = Some True, isRetweeted = Some False\<rparr>]
   \<and> (\<exists>found. searchTweets no_engine token_of demo (Some ''hello'') (Some ''Bearer carol-token'') = Inr found
      \<and> map doc found = take 20 (sort_desc
            (filter (\<lambda>t. contains_ci ''hello'' (content t) \<and> replyTo t = None) (tweets demo))))"
proof -
  have h1: "''hello'' \<noteq> []" by simp
  have h2: "\<forall>c\<in>set ''hello''. \<not> metachar c" by (simp add: metachar_def)
  have e: "searchTweets no_engine token_of demo (Some ''hello'') (Some ''Bearer carol-token'')
       = Inr [\<lparr>doc = hello, isLiked = Some True, isRetweeted = Some False\<rparr>]"
    by (simp add: searchTweets_def demo_defs decoded_id_def search_jwt_def jwt_verify_def
        token_of_def regex_i_def metachar_def lower_def sort_desc_def withUserInteraction_def)
  have h3: "filter metachar ''hello'' = []" by (simp add: metachar_def)
  show ?thesis
    using h1 h3 e searchTweets_literal [OF h1 h2, of no_engine token_of demo "Some ''Bearer carol-token''"]
    by auto
qed

text \<open>
  Without the two restrictions the property fails. The query \<open>H.llo\<close> is read as a
  pattern and returns alice's post, whose content does not contain \<open>H.llo\<close>; the empty
  query is refused with status 400 although every content contains the empty string.
\<close>

theorem searchTweets_counterexample:
  "searchTweets no_engine token_of demo (Some ''H.llo'') None = Inr [plain hello]
   \<and> \<not> contains_ci ''H.llo'' (content hello)
   \<and> searchTweets no_engine token_of demo (Some []) None
        = Inl (Failure 400 ''Search query is required'')
   \<and> contains_ci [] (content hello) \<and> replyTo hello = None"
proof -
  have 1: "searchTweets no_engine token_of demo (Some ''H.llo'') None = Inr [plain hello]"
    by (simp add: searchTweets_def demo_defs decoded_id_def regex_i_def metachar_def lower_def
        sort_desc_def)
  have "\<not> set (map lower ''H.llo'') \<subseteq> set (map lower (content hello))"
    by (simp add: hello_def lower_def)
  then have 2: "\<not> contains_ci ''H.llo'' (content hello)"
    using contains_ci_chars by blast
  have 3: "searchTweets no_engine token_of demo (Some []) None
        = Inl (Failure 400 ''Search query is required'')"
    by (simp add: searchTweets_def)
  have "map lower (content hello) = [] @ map lower [] @ map lower (content hello)" by simp
  then have 4: "contains_ci [] (content hello)"
    unfolding contains_ci_def by blast
  show ?thesis using 1 2 3 4 by (simp add: hello_def)
qed

section \<open>The timeline\<close>

text \<open>
  C8. For a viewer V with following list F, a page p of at least 1 and a page size s of
  at least 1, the timeline answers with exactly the non-reply tweets whose author is in
  F or is V, ordered by \<open>createdAt\<close> descending, leaving out the first (p - 1) * s of
  them and sending at most s. Whatever the other parameter is, a page that is not given
  or is given as 0 counts as 1, and a page size that is not given or is given as 0
  counts as 10.
\<close>

theorem getTimeline_page:
  assumes "1 \<le> p" and "1 \<le> s"
  shows "(\<exists>found. getTimeline st me fl (Some p) (Some s) = Inr found
      \<and> map doc found = take (nat s) (drop (nat ((p - 1) * s)) (sort_desc
            (filter (\<lambda>t. user t \<in> set fl \<union> {me} \<and> replyTo t = None) (tweets st))))
      \<and> newest_first (map doc found) \<and> int (length found) \<le> s)
    \<and> mset (sort_desc (filter (\<lambda>t. user t \<in> set fl \<union> {me} \<and> replyTo t = None) (tweets st)))
        = mset (filter (\<lambda>t. user t \<in> set fl \<union> {me} \<and> replyTo t = None) (tweets st))
    \<and> getTimeline st me fl None l = getTimeline st me fl (Some 1) l
    \<and> getTimeline st me fl (Some 0) l = getTimeline st me fl (Some 1) l
    \<and> getTimeline st me fl q None = getTimeline st me fl q (Some 10)
    \<and> getTimeline st me fl q (Some 0) = getTimeline st me fl q (Some 10)"
proof -
  let ?E = "filter (\<lambda>t. user t \<in> set fl \<union> {me} \<and> replyTo t = None) (tweets st)"
  let ?R = "take (nat s) (drop (nat ((p - 1) * s)) (sort_desc ?E))"
  have "0 \<le> (p - 1) * s" using assms by simp
  then have k: "\<not> (p - 1) * s < 0" by simp
  have r: "getTimeline st me fl (Some p) (Some s) = Inr (map (withUserInteraction me) ?R)"
    using assms k by (simp add: getTimeline_def or_default_def Let_def)
  have d: "map doc (map (withUserInteraction me) ?R) = ?R"
    by (simp add: doc_with)
  have n: "newest_first ?R"
    by (simp add: newest_first_take newest_first_drop newest_first_sort_desc)
  have l: "int (length (map (withUserInteraction me) ?R)) \<le> s"
    using assms by simp
  have defaults:
    "getTimeline st me fl None l = getTimeline st me fl (Some 1) l"
    "getTimeline st me fl (Some 0) l = getTimeline st me fl (Some 1) l"
    "getTimeline st me fl q None = getTimeline st me fl q (Some 10)"
    "getTimeline st me fl q (Some 0) = getTimeline st me fl q (Some 10)"
    by (simp_all add: getTimeline_def or_default_def)
  show ?thesis
    using r d n l defaults by (simp add: mset_sort_desc)
qed

text \<open>Bob, who follows alice, asks for page 2 with page size 1, and for the defaults.\<close>

theorem getTimeline_page_witness:
  "(1::int) \<le> 2 \<and> (1::int) \<le> 1
   \<and> getTimeline demo 2 [1] (Some 2) (Some 1) = Inr [withUserInteraction 2 hello]
   \<and> getTimeline demo 2 [1] None None = Inr (map (withUserInteraction 2) [wrapper, hello])
   \<and> (\<exists>found. getTimeline demo 2 [1] (Some 2) (Some 1) = Inr found
      \<and> map doc found = take (nat 1) (drop (nat ((2 - 1) * 1)) (sort_desc
            (filter (\<lambda>t. user t \<in> set [1] \<union> {2} \<and> replyTo t = None) (tweets demo)))))"
proof -
  have h1: "(1::int) \<le> 2" by simp
  have h2: "(1::int) \<le> 1" by simp
  have e1: "getTimeline demo 2 [1] (Some 2) (Some 1) = Inr [withUserInteraction 2 hello]"
    by (simp add: getTimeline_def or_default_def demo_defs sort_desc_def)
  have e2: "getTimeline demo 2 [1] None None = Inr (map (withUserInteraction 2) [wrapper, hello])"
    by (simp add: getTimeline_def or_default_def demo_defs sort_desc_def)
  show ?thesis
    using h1 h2 e1 e2 getTimeline_page [OF h1 h2, of demo 2 "[1]"]
    by auto
qed

text \<open>With the page size given as 0 the handler falls back to 10 and sends two tweets.\<close>

theorem getTimeline_counterexample:
  "getTimeline demo 2 [1] (Some 1) (Some 0) = Inr (map (withUserInteraction 2) [wrapper, hello])
   \<and> length (map (withUserInteraction 2) [wrapper, hello]) = 2"
  by (simp add: getTimeline_def or_default_def demo_defs sort_desc_def)

section \<open>Retweeting\<close>

text \<open>A retweet request never reaches its success answer: the wrapper it builds has no
  \<open>content\<close> and is rejected on save.\<close>

lemma retweet_never_saves:
  "fst (retweet new_id now st me i) \<noteq> Inr ''Tweet retweeted''"
  by (simp add: retweet_def save_def validate_def Let_def split: option.splits)

text \<open>
  C1. Carol, who has not retweeted alice's post, asks to retweet it. Her id is added to
  the post's \<open>retweets\<close>, but the wrapper \<open>new Tweet({ user, retweetData })\<close> has no
  \<open>content\<close>, which the schema requires: \<open>save()\<close> throws, the handler answers 500, and
  no tweet with carol as author and \<open>retweetData\<close> pointing to the post exists afterwards.
\<close>

theorem retweet_saves_no_wrapper:
  "retweet 14 140 demo 3 10 =
     (Inl (Failure 500 ''Server error''),
      demo\<lparr>tweets := [hello\<lparr>retweets := [2, 3]\<rparr>, reply, grand_reply, wrapper]\<rparr>)
   \<and> Tweet_findById 10 demo = Some hello \<and> 3 \<notin> set (retweets hello)
   \<and> filter (\<lambda>t. user t = 3 \<and> retweetData t = Some 10)
        [hello\<lparr>retweets := [2, 3]\<rparr>, reply, grand_reply, wrapper] = []"
  by (simp add: retweet_def demo_defs Tweet_findById_def Tweet_findByIdAndUpdate_def addToSet_def
        save_def validate_def)

section \<open>Creating a tweet\<close>

text \<open>
  C6. A create request with an image and an empty (or absent) \<open>content\<close> passes the
  handler's own test, uploads the image, and is then rejected by the schema's
  \<open>required\<close> on \<open>content\<close>: the handler answers 500 and no tweet is stored. A request
  with neither content nor image is refused with status 400 and the store unchanged.
\<close>

theorem createTweet_image_only_fails:
  "createTweet (\<lambda>path. Some ''https://media/1'') 14 140 demo 1 (Some []) None (Some ''/tmp/a.png'')
     = (Inl (Failure 500 ''Server error''), demo)
   \<and> createTweet (\<lambda>path. Some ''https://media/1'') 14 140 demo 1 None None (Some ''/tmp/a.png'')
     = (Inl (Failure 500 ''Server error''), demo)
   \<and> createTweet (\<lambda>path. Some ''https://media/1'') 14 140 demo 1 None None None
     = (Inl (Failure 400 ''Tweet content is required''), demo)"
  by (simp add: createTweet_def save_def validate_def trim_def)

section \<open>Viewer flags on the read paths\<close>

text \<open>In the tweets routes and in the profile route the \<open>Authorization\<close> header has no
  effect on the answer.\<close>

lemma decoded_id_unbound: "decoded_id None authorization = None"
  by (simp add: decoded_id_def jwt_verify_def split: option.splits)

lemma getTweet_ignores_authorization:
  "getTweet lib st i authorization = getTweet lib st i None"
  by (simp add: getTweet_def tweets_jwt_def decoded_id_unbound cong: option.case_cong)

lemma getComments_ignores_authorization:
  "getComments lib st i authorization = getComments lib st i None"
  by (simp add: getComments_def tweets_jwt_def decoded_id_unbound cong: option.case_cong)

lemma getUser_ignores_authorization:
  "getUser lib st name authorization = getUser lib st name None"
  by (simp add: getUser_def users_jwt_def decoded_id_unbound Let_def cong: option.case_cong)

text \<open>
  C5. In the tweets routes and in \<open>routes/users.js\<close> the identifier \<open>jwt\<close> is unbound,
  so a request with a valid credential is answered like an anonymous one: carol has
  liked alice's post, yet the single-tweet view sent to carol has \<open>isLiked = false\<close>;
  bob follows alice, yet alice's profile sent to bob has \<open>isFollowing = false\<close>. No
  credential makes these reads fail.
\<close>

theorem read_flags_ignore_valid_viewer:
  "token_of ''carol-token'' = Some 3 \<and> 3 \<in> set (likes hello)
   \<and> getTweet token_of demo 10 (Some ''Bearer carol-token'')
       = Inr \<lparr>doc = hello, isLiked = Some False, isRetweeted = Some False\<rparr>
   \<and> token_of ''bob-token'' = Some 2 \<and> User_findById 2 demo = Some bob
   \<and> uid alice \<in> set (following bob)
   \<and> getUser token_of demo ''alice'' (Some ''Bearer bob-token'')
       = Inr \<lparr>profile_user = alice, profile_tweets = 1, isFollowing = False\<rparr>"
  by (simp add: getTweet_def getUser_def demo_defs Tweet_findById_def User_findById_def
      decoded_id_def tweets_jwt_def users_jwt_def jwt_verify_def token_of_def)

end
